theory Spec2Isabelle
  imports Main "HOL-Library.Word"
begin

section \<open>The emulator orchestrator of qiling (\<^verbatim>\<open>qiling/core.py\<close>)\<close>

subsection \<open>Python exceptions\<close>

text \<open>
  The exceptions that the modelled part of \<^verbatim>\<open>core.py\<close> can raise or observe. \<open>UserError\<close>
  stands for any exception raised by user code (a hook callback), tagged by a name.
\<close>

datatype py_error =
    IndexError
  | AttributeError
  | TypeError
  | RuntimeError
  | StructError
  | UnicodeDecodeError
  | UcError
  | KeyboardInterrupt
  | SystemExit
  | QlErrorOutput
  | UserError string

subsection \<open>The memory map registry\<close>

text \<open>
  An entry of \<^verbatim>\<open>self.map_info\<close> is the four-element list \<^verbatim>\<open>[s, e, p, info]\<close>:
  start, end, permissions and label. Addresses are Python integers.
\<close>

type_synonym map_entry = "int \<times> int \<times> string \<times> string"

definition entry_start :: "map_entry \<Rightarrow> int" where
  "entry_start x = fst x"

definition entry_end :: "map_entry \<Rightarrow> int" where
  "entry_end x = fst (snd x)"

definition entry_perms :: "map_entry \<Rightarrow> string" where
  "entry_perms x = fst (snd (snd x))"

definition entry_label :: "map_entry \<Rightarrow> string" where
  "entry_label x = snd (snd (snd x))"

text \<open>
  The first loop of \<^verbatim>\<open>insert_map_info\<close> (lines 683-707): one iteration per existing entry,
  threading \<^verbatim>\<open>tmp_map_info\<close> and \<^verbatim>\<open>insert_flag\<close>. The two \<^verbatim>\<open>continue\<close> branches come
  first; the remaining entry overlaps the new range and is cut into a prefix, the new
  range (once) and a suffix. Prefix and suffix are appended with \<^verbatim>\<open>mem_p\<close>, the perms of
  the incoming range, and \<^verbatim>\<open>info\<close>, the label of the old entry.
\<close>

fun insert_loop ::
  "int \<Rightarrow> int \<Rightarrow> string \<Rightarrow> string \<Rightarrow> map_entry list \<Rightarrow> map_entry list \<Rightarrow> nat
     \<Rightarrow> map_entry list \<times> nat" where
  "insert_loop mem_s mem_e mem_p mem_info [] tmp_map_info insert_flag =
     (tmp_map_info, insert_flag)"
| "insert_loop mem_s mem_e mem_p mem_info ((s, e, p, info) # rest) tmp_map_info insert_flag =
     (if e \<le> mem_s then
        insert_loop mem_s mem_e mem_p mem_info rest (tmp_map_info @ [(s, e, p, info)]) insert_flag
      else if s \<ge> mem_e then
        (if insert_flag = 0 then
           insert_loop mem_s mem_e mem_p mem_info rest
             (tmp_map_info @ [(mem_s, mem_e, mem_p, mem_info), (s, e, p, info)]) 1
         else
           insert_loop mem_s mem_e mem_p mem_info rest (tmp_map_info @ [(s, e, p, info)])
             insert_flag)
      else
        (let tmp1 = (if s < mem_s then tmp_map_info @ [(s, mem_s, mem_p, info)]
                     else tmp_map_info);
             tmp2 = (if insert_flag = 0 then tmp1 @ [(mem_s, mem_e, mem_p, mem_info)]
                     else tmp1);
             flag2 = (if insert_flag = 0 then 1 else insert_flag);
             tmp3 = (if e > mem_e then tmp2 @ [(mem_e, e, mem_p, info)] else tmp2)
         in insert_loop mem_s mem_e mem_p mem_info rest tmp3 flag2))"

text \<open>
  The second loop (lines 713-717). The list \<^verbatim>\<open>map_info\<close> under construction is never
  empty; it is kept as its front part and its last element \<^verbatim>\<open>map_info[-1]\<close>. The test
  compares the label \<^verbatim>\<open>info\<close> of the next entry with \<^verbatim>\<open>map_info[-1][2]\<close>, which is the
  perms of the last entry, and a merge only overwrites the end of the last entry.
\<close>

fun coalesce :: "map_entry list \<Rightarrow> map_entry \<Rightarrow> map_entry list \<Rightarrow> map_entry list" where
  "coalesce front (ls, le, lp, linfo) [] = front @ [(ls, le, lp, linfo)]"
| "coalesce front (ls, le, lp, linfo) ((s, e, p, info) # rest) =
     (if s = le \<and> info = lp then coalesce front (ls, e, lp, linfo) rest
      else coalesce (front @ [(ls, le, lp, linfo)]) (s, e, p, info) rest)"

definition build_tmp_map_info ::
  "map_entry list \<Rightarrow> int \<Rightarrow> int \<Rightarrow> string \<Rightarrow> string \<Rightarrow> map_entry list" where
  "build_tmp_map_info entries mem_s mem_e mem_p mem_info =
     (if length entries = 0 then [(mem_s, mem_e, mem_p, mem_info)]
      else (case insert_loop mem_s mem_e mem_p mem_info entries [] 0 of
              (tmp_map_info, insert_flag) \<Rightarrow>
                if insert_flag = 0 then tmp_map_info @ [(mem_s, mem_e, mem_p, mem_info)]
                else tmp_map_info))"

text \<open>
  \<^verbatim>\<open>insert_map_info\<close> on the registry. \<^verbatim>\<open>tmp_map_info[0]\<close> raises IndexError on an empty
  list; \<open>insert_map_info_total\<close> below shows that this branch is never taken.
\<close>

definition insert_map_info ::
  "map_entry list \<Rightarrow> int \<Rightarrow> int \<Rightarrow> string \<Rightarrow> string \<Rightarrow> py_error + map_entry list" where
  "insert_map_info entries mem_s mem_e mem_p mem_info =
     (case build_tmp_map_info entries mem_s mem_e mem_p mem_info of
        [] \<Rightarrow> Inl IndexError
      | t0 # ts \<Rightarrow> Inr (coalesce [] t0 ts))"

text \<open>A sequence of calls, each on the registry the previous one left; an error stops it.\<close>

fun insert_map_infos ::
  "map_entry list \<Rightarrow> (int \<times> int \<times> string \<times> string) list \<Rightarrow> py_error + map_entry list" where
  "insert_map_infos entries [] = Inr entries"
| "insert_map_infos entries ((mem_s, mem_e, mem_p, mem_info) # calls) =
     (case insert_map_info entries mem_s mem_e mem_p mem_info of
        Inl err \<Rightarrow> Inl err
      | Inr entries' \<Rightarrow> insert_map_infos entries' calls)"

text \<open>
  The registry invariant of the data model: every entry is a non-empty range, and every
  entry ends at or before the start of every later entry. It makes the list strictly
  sorted by start and its ranges pairwise disjoint.
\<close>

definition ends_before :: "map_entry \<Rightarrow> map_entry \<Rightarrow> bool" where
  "ends_before a b = (entry_end a \<le> entry_start b)"

definition well_formed :: "map_entry list \<Rightarrow> bool" where
  "well_formed m = ((\<forall>x \<in> set m. entry_start x < entry_end x) \<and> sorted_wrt ends_before m)"

subsection \<open>Python values and the emulator object\<close>

text \<open>
  The Python values a caller can hand over as \<^verbatim>\<open>verbose\<close> or as \<^verbatim>\<open>user_data\<close>.
  \<open>PyObject\<close> is an instance of a class that defines none of \<^verbatim>\<open>__bool__\<close>,
  \<^verbatim>\<open>__len__\<close>, \<^verbatim>\<open>__eq__\<close> and \<^verbatim>\<open>decode\<close>. \<open>truthy\<close> is the test that \<^verbatim>\<open>if user_data:\<close> makes.
\<close>

type_synonym byte = "8 word"

datatype py_value =
    PyNone
  | PyBool bool
  | PyInt int
  | PyStr string
  | PyBytes "byte list"
  | PyList "py_value list"
  | PyTuple "py_value list"
  | PyDict "(py_value \<times> py_value) list"
  | PyObject nat

fun truthy :: "py_value \<Rightarrow> bool" where
  "truthy PyNone = False"
| "truthy (PyBool b) = b"
| "truthy (PyInt n) = (n \<noteq> 0)"
| "truthy (PyStr s) = (s \<noteq> [])"
| "truthy (PyBytes bs) = (bs \<noteq> [])"
| "truthy (PyList xs) = (xs \<noteq> [])"
| "truthy (PyTuple xs) = (xs \<noteq> [])"
| "truthy (PyDict kvs) = (kvs \<noteq> [])"
| "truthy (PyObject ident) = True"

text \<open>Constants of \<^verbatim>\<open>qiling.const\<close> and \<^verbatim>\<open>qiling.os.linux.thread\<close> that \<^verbatim>\<open>core.py\<close> names.\<close>

datatype ql_endian = QL_ENDIAN_EL | QL_ENDIAN_EB

datatype ql_output = QL_OUT_DEFAULT | QL_OUT_OFF | QL_OUT_DISASM | QL_OUT_DEBUG | QL_OUT_DUMP

datatype thread_event = THREAD_EVENT_EXIT_GROUP_EVENT | THREAD_EVENT_UNEXECPT_EVENT

text \<open>
  Modelled from the spec: the guest thread and the thread manager
  (\<^verbatim>\<open>qiling.os.linux.thread\<close>) are not part of the source at hand. The spec says of
  \<^verbatim>\<open>stop\<close>: "if a thread manager is active, mark the current guest thread stopped with
  reason". A thread carries its stopped mark and its stop event; \<^verbatim>\<open>td.stop()\<close> sets the
  mark. The manager's \<^verbatim>\<open>cur_thread\<close> may be \<^verbatim>\<open>None\<close>, as the test in \<^verbatim>\<open>nprint\<close>
  (line 274) allows.
\<close>

record guest_thread =
  td_stopped :: bool
  td_stop_event :: "thread_event option"

record thread_manager =
  cur_thread :: "guest_thread option"

definition td_stop :: "guest_thread \<Rightarrow> guest_thread" where
  "td_stop td = td\<lparr>td_stopped := True\<rparr>"

text \<open>
  The attributes of the \<^verbatim>\<open>Qiling\<close> object that the modelled methods read or write. The
  CPU engine \<^verbatim>\<open>self.uc\<close> is external: its state is the type parameter \<open>'uc\<close>, and its
  operations \<^verbatim>\<open>mem_write\<close> and \<^verbatim>\<open>emu_stop\<close> are parameters of the methods that call them.
\<close>

record 'uc ql =
  archbit :: int
  archendian :: ql_endian
  verbose :: py_value
  output_tag :: "ql_output option"
  patch_bin :: "(int \<times> byte list) list"
  patch_lib :: "(int \<times> byte list \<times> string) list"
  loadbase :: int
  map_info :: "map_entry list"
  internal_exception :: "py_error option"
  thread_management :: "thread_manager option"
  uc :: 'uc

text \<open>
  The attribute defaults that \<^verbatim>\<open>__init__\<close> sets (lines 96-120), around an architecture,
  the two output options and an engine.
\<close>

definition ql_init :: "int \<Rightarrow> ql_endian \<Rightarrow> py_value \<Rightarrow> ql_output option \<Rightarrow> 'uc \<Rightarrow> 'uc ql" where
  "ql_init bits endian verbose_arg output_arg engine =
     \<lparr>archbit = bits, archendian = endian, verbose = verbose_arg, output_tag = output_arg,
      patch_bin = [], patch_lib = [], loadbase = 0, map_info = [],
      internal_exception = None, thread_management = None, uc = engine\<rparr>"

subsection \<open>The verbose gate of the constructor\<close>

text \<open>
  Line 217 (and again line 289, in \<^verbatim>\<open>dprint\<close>):
  \<^verbatim>\<open>type(self.verbose) != int or self.verbose > 99 and (self.verbose > 0 and self.output not in (QL_OUT_DEBUG, QL_OUT_DUMP))\<close>.
  In Python \<^verbatim>\<open>and\<close> binds tighter than \<^verbatim>\<open>or\<close>, and \<^verbatim>\<open>or\<close> evaluates its right operand
  only when the left one is false, so the comparisons see an \<^verbatim>\<open>int\<close> only. The type of
  \<^verbatim>\<open>True\<close> is \<^verbatim>\<open>bool\<close>, not \<^verbatim>\<open>int\<close>. \<^verbatim>\<open>self.output\<close> is the tag that the \<^verbatim>\<open>output\<close> setter
  stored (the field \<open>output_tag\<close>), \<open>None\<close> when it is none of the five.
\<close>

definition verbose_rejected :: "py_value \<Rightarrow> ql_output option \<Rightarrow> bool" where
  "verbose_rejected verbose_arg output_arg =
     (case verbose_arg of
        PyInt v \<Rightarrow> v > 99 \<and> (v > 0 \<and> output_arg \<notin> {Some QL_OUT_DEBUG, Some QL_OUT_DUMP})
      | _ \<Rightarrow> True)"

definition init_verbose_check :: "'uc ql \<Rightarrow> py_error + unit" where
  "init_verbose_check q =
     (if verbose_rejected (verbose q) (output_tag q) then Inl QlErrorOutput else Inr ())"

subsection \<open>Packing and unpacking machine words\<close>


fun le_value :: "byte list \<Rightarrow> int" where
  "le_value [] = 0"
| "le_value (b # bs) = uint b + 256 * le_value bs"

definition in_order :: "ql_endian \<Rightarrow> byte list \<Rightarrow> byte list" where
  "in_order endian bs = (if endian = QL_ENDIAN_EB then rev bs else bs)"


definition struct_unpack_unsigned :: "ql_endian \<Rightarrow> nat \<Rightarrow> byte list \<Rightarrow> py_error + int" where
  "struct_unpack_unsigned endian n bs =
     (if length bs = n then Inr (le_value (in_order endian bs)) else Inl StructError)"

definition struct_unpack_signed :: "ql_endian \<Rightarrow> nat \<Rightarrow> byte list \<Rightarrow> py_error + int" where
  "struct_unpack_signed endian n bs =
     (if length bs = n then
        (let v = le_value (in_order endian bs)
         in Inr (if v < 2 ^ (8 * n - 1) then v else v - 2 ^ (8 * n)))
      else Inl StructError)"

text \<open>
  The methods, lines 519-589. The first argument is the byte order of the host. The
  64-bit forms never look at \<^verbatim>\<open>archendian\<close>; the 32-bit forms do. A bare \<^verbatim>\<open>raise\<close> with no
  active exception is a \<^verbatim>\<open>RuntimeError\<close>.
\<close>

definition unpack64 :: "ql_endian \<Rightarrow> 'uc ql \<Rightarrow> byte list \<Rightarrow> py_error + int" where
  "unpack64 host q x = struct_unpack_unsigned host 8 x"


definition unpack64s :: "ql_endian \<Rightarrow> 'uc ql \<Rightarrow> byte list \<Rightarrow> py_error + int" where
  "unpack64s host q x = struct_unpack_signed host 8 x"

definition unpack32 :: "ql_endian \<Rightarrow> 'uc ql \<Rightarrow> byte list \<Rightarrow> py_error + int" where
  "unpack32 host q x =
     (if archendian q = QL_ENDIAN_EB then struct_unpack_unsigned QL_ENDIAN_EB 4 x
      else struct_unpack_unsigned host 4 x)"


definition unpack32s :: "ql_endian \<Rightarrow> 'uc ql \<Rightarrow> byte list \<Rightarrow> py_error + int" where
  "unpack32s host q x =
     (if archendian q = QL_ENDIAN_EB then struct_unpack_signed QL_ENDIAN_EB 4 x
      else struct_unpack_signed host 4 x)"


definition unpack :: "ql_endian \<Rightarrow> 'uc ql \<Rightarrow> byte list \<Rightarrow> py_error + int" where
  "unpack host q data =
     (if archbit q = 64 then unpack64 host q data
      else if archbit q = 32 then unpack32 host q data
      else Inl RuntimeError)"

definition unpacks :: "ql_endian \<Rightarrow> 'uc ql \<Rightarrow> byte list \<Rightarrow> py_error + int" where
  "unpacks host q data =
     (if archbit q = 64 then unpack64s host q data
      else if archbit q = 32 then unpack32s host q data
      else Inl RuntimeError)"

subsection \<open>The patch set\<close>





text \<open>
  \<^verbatim>\<open>__enable_bin_patch\<close>, lines 662-664: one \<^verbatim>\<open>mem_write\<close> per pending binary patch, in
  order; an exception of the engine ends the loop.
\<close>

fun bin_patch_loop ::
  "('uc \<Rightarrow> int \<Rightarrow> byte list \<Rightarrow> py_error + 'uc) \<Rightarrow> int \<Rightarrow> (int \<times> byte list) list \<Rightarrow> 'uc
     \<Rightarrow> py_error + 'uc" where
  "bin_patch_loop mem_write base [] engine = Inr engine"
| "bin_patch_loop mem_write base ((addr, code) # rest) engine =
     (case mem_write engine (base + addr) code of
        Inl err \<Rightarrow> Inl err
      | Inr engine' \<Rightarrow> bin_patch_loop mem_write base rest engine')"


text \<open>
  \<^verbatim>\<open>__get_lib_base\<close>, lines 726-730: the start of the first matching entry, else \<open>-1\<close>.
  \<^verbatim>\<open>os.path.split\<close> is the host's (\<^verbatim>\<open>posixpath\<close> or \<^verbatim>\<open>ntpath\<close>): it is a parameter, a
  function from a path to its head and tail.
\<close>

fun get_lib_base :: "(string \<Rightarrow> string \<times> string) \<Rightarrow> map_entry list \<Rightarrow> string \<Rightarrow> int" where
  "get_lib_base os_path_split [] filename = -1"
| "get_lib_base os_path_split ((s, e, p, info) # rest) filename =
     (if snd (os_path_split info) = filename then s
      else get_lib_base os_path_split rest filename)"

text \<open>
  \<^verbatim>\<open>enable_lib_patch\<close>, lines 666-668: the value of \<^verbatim>\<open>__get_lib_base\<close> goes into the sum
  unchecked.
\<close>

fun lib_patch_loop ::
  "(string \<Rightarrow> string \<times> string) \<Rightarrow> ('uc \<Rightarrow> int \<Rightarrow> byte list \<Rightarrow> py_error + 'uc)
     \<Rightarrow> map_entry list \<Rightarrow> (int \<times> byte list \<times> string) list \<Rightarrow> 'uc \<Rightarrow> py_error + 'uc" where
  "lib_patch_loop os_path_split mem_write entries [] engine = Inr engine"
| "lib_patch_loop os_path_split mem_write entries ((addr, code, filename) # rest) engine =
     (case mem_write engine (get_lib_base os_path_split entries filename + addr) code of
        Inl err \<Rightarrow> Inl err
      | Inr engine' \<Rightarrow> lib_patch_loop os_path_split mem_write entries rest engine')"

definition enable_lib_patch ::
  "(string \<Rightarrow> string \<times> string) \<Rightarrow> ('uc \<Rightarrow> int \<Rightarrow> byte list \<Rightarrow> py_error + 'uc) \<Rightarrow> 'uc ql
     \<Rightarrow> py_error + 'uc ql" where
  "enable_lib_patch os_path_split mem_write q =
     (case lib_patch_loop os_path_split mem_write (map_info q) (patch_lib q) (uc q) of
        Inl err \<Rightarrow> Inl err
      | Inr engine' \<Rightarrow> Inr (q\<lparr>uc := engine'\<rparr>))"

text \<open>
  \<^verbatim>\<open>posixpath.split\<close>, for concrete runs on a POSIX host: the tail is what follows the last
  slash; the head is what comes before, without its trailing slashes unless it consists
  of slashes only.
\<close>

definition posixpath_split :: "string \<Rightarrow> string \<times> string" where
  "posixpath_split p =
     (let tail = rev (takeWhile (\<lambda>c. c \<noteq> CHR ''/'') (rev p));
          head = take (length p - length tail) p
      in (if dropWhile (\<lambda>c. c = CHR ''/'') head = [] then head
          else rev (dropWhile (\<lambda>c. c = CHR ''/'') (rev head)),
          tail))"

text \<open>
  An engine for concrete runs: its state is the list of the write requests it has
  received, and it accepts every request.
\<close>

definition recording_mem_write ::
  "(int \<times> byte list) list \<Rightarrow> int \<Rightarrow> byte list \<Rightarrow> py_error + (int \<times> byte list) list" where
  "recording_mem_write engine addr data = Inr (engine @ [(addr, data)])"

text \<open>
  A second engine for concrete runs: it has memory mapped from \<open>lo\<close> up to \<open>hi\<close> only,
  records the writes that fall inside and refuses the others with \<^verbatim>\<open>UcError\<close>.
\<close>

definition mapped_mem_write ::
  "int \<Rightarrow> int \<Rightarrow> (int \<times> byte list) list \<Rightarrow> int \<Rightarrow> byte list
     \<Rightarrow> py_error + (int \<times> byte list) list" where
  "mapped_mem_write lo hi engine addr data =
     (if lo \<le> addr \<and> addr + int (length data) \<le> hi then Inr (engine @ [(addr, data)])
      else Inl UcError)"


subsection \<open>Stopping the emulator\<close>

text \<open>
  A call either returns or raises; either way it leaves a state behind, since Python
  does not undo what a function did before it raised.
\<close>

datatype 's outcome = Returned 's | Raised py_error 's

text \<open>
  \<^verbatim>\<open>stop\<close>, lines 735-740. With a thread manager whose \<^verbatim>\<open>cur_thread\<close> is \<^verbatim>\<open>None\<close>, the call
  \<^verbatim>\<open>td.stop()\<close> raises \<^verbatim>\<open>AttributeError\<close> before the engine is told to stop.
\<close>

definition stop :: "('uc \<Rightarrow> 'uc) \<Rightarrow> 'uc ql \<Rightarrow> thread_event \<Rightarrow> 'uc ql outcome" where
  "stop emu_stop q stop_event =
     (case thread_management q of
        None \<Rightarrow> Returned (q\<lparr>uc := emu_stop (uc q)\<rparr>)
      | Some tm \<Rightarrow>
          (case cur_thread tm of
             None \<Rightarrow> Raised AttributeError q
           | Some td \<Rightarrow>
               Returned (q\<lparr>thread_management :=
                              Some (tm\<lparr>cur_thread :=
                                Some ((td_stop td)\<lparr>td_stop_event := Some stop_event\<rparr>)\<rparr>),
                            uc := emu_stop (uc q)\<rparr>)))"

subsection \<open>The hook bridge\<close>

text \<open>
  \<^verbatim>\<open>catch_KeyboardInterrupt\<close>, lines 21-33. The handler catches \<^verbatim>\<open>BaseException\<close>, calls
  \<^verbatim>\<open>ql.stop\<close> first and stores the exception afterwards; an exception of \<^verbatim>\<open>ql.stop\<close>
  itself leaves the handler and the wrapper.
\<close>

definition catch_KeyboardInterrupt ::
  "('uc \<Rightarrow> 'uc) \<Rightarrow> ('uc ql \<Rightarrow> 'uc ql outcome) \<Rightarrow> 'uc ql \<Rightarrow> 'uc ql outcome" where
  "catch_KeyboardInterrupt emu_stop func q =
     (case func q of
        Returned q' \<Rightarrow> Returned q'
      | Raised e q' \<Rightarrow>
          (case stop emu_stop q' THREAD_EVENT_UNEXECPT_EVENT of
             Raised e' q'' \<Rightarrow> Raised e' q''
           | Returned q'' \<Rightarrow> Returned (q''\<lparr>internal_exception := Some e\<rparr>)))"

text \<open>
  A user callback gets the emulator (the state), the event fields, and \<^verbatim>\<open>user_data\<close> as
  a last argument or not at all. The engine calls what was registered with the fields of
  its event, between \<^verbatim>\<open>uc\<close> and the packed data: address and size for code and block
  hooks, the interrupt number, access, address, size and value for memory hooks, and for
  an instruction hook whatever the instruction brings (nothing for a syscall).
\<close>

type_synonym 'uc user_callback = "int list \<Rightarrow> py_value option \<Rightarrow> 'uc ql \<Rightarrow> 'uc ql outcome"

datatype uc_args =
    CodeArgs int int
  | IntrArgs int
  | MemArgs int int int int
  | InsnArgs "int list"

datatype uc_hook_type =
    UC_HOOK_CODE | UC_HOOK_INTR | UC_HOOK_BLOCK | UC_HOOK_INSN
  | UC_HOOK_MEM_UNMAPPED | UC_HOOK_MEM_READ_INVALID | UC_HOOK_MEM_WRITE_INVALID
  | UC_HOOK_MEM_FETCH_INVALID | UC_HOOK_MEM_VALID
  | UC_HOOK_MEM_READ | UC_HOOK_MEM_WRITE | UC_HOOK_MEM_FETCH

datatype uc_x86_insn = UC_X86_INS_SYSCALL | UC_X86_INS_SYSENTER | UC_X86_INS_IN | UC_X86_INS_OUT

text \<open>What a \<^verbatim>\<open>hook_*\<close> method hands to \<^verbatim>\<open>self.uc.hook_add\<close>.\<close>

record 'uc hook_add_call =
  htype :: uc_hook_type
  hook_fn :: "uc_args \<Rightarrow> 'uc ql \<Rightarrow> 'uc ql outcome"
  hook_begin :: int
  hook_end :: int
  hook_arg1 :: "uc_x86_insn option"

text \<open>
  The inner \<^verbatim>\<open>_callback\<close> functions, before decoration. A call with fields of another
  shape than the parameters is a \<^verbatim>\<open>TypeError\<close>, raised inside the wrapper's \<^verbatim>\<open>try\<close>.
  The bodies of \<^verbatim>\<open>hook_code\<close> and \<^verbatim>\<open>hook_block\<close> are the same, and so are those of all
  memory hooks.
\<close>

definition code_callback ::
  "'uc user_callback \<Rightarrow> py_value \<Rightarrow> uc_args \<Rightarrow> 'uc ql \<Rightarrow> 'uc ql outcome" where
  "code_callback callback user_data args q =
     (case args of
        CodeArgs addr sz \<Rightarrow>
          (if truthy user_data then callback [addr, sz] (Some user_data) q
           else callback [addr, sz] None q)
      | _ \<Rightarrow> Raised TypeError q)"

definition intr_callback ::
  "'uc user_callback \<Rightarrow> py_value \<Rightarrow> uc_args \<Rightarrow> 'uc ql \<Rightarrow> 'uc ql outcome" where
  "intr_callback callback user_data args q =
     (case args of
        IntrArgs intno \<Rightarrow>
          (if truthy user_data then callback [intno] (Some user_data) q
           else callback [intno] None q)
      | _ \<Rightarrow> Raised TypeError q)"

definition mem_callback ::
  "'uc user_callback \<Rightarrow> py_value \<Rightarrow> uc_args \<Rightarrow> 'uc ql \<Rightarrow> 'uc ql outcome" where
  "mem_callback callback user_data args q =
     (case args of
        MemArgs access addr sz val \<Rightarrow>
          (if truthy user_data then callback [addr, sz, val] (Some user_data) q
           else callback [addr, sz, val] None q)
      | _ \<Rightarrow> Raised TypeError q)"

definition address_callback ::
  "'uc user_callback \<Rightarrow> py_value \<Rightarrow> uc_args \<Rightarrow> 'uc ql \<Rightarrow> 'uc ql outcome" where
  "address_callback callback user_data args q =
     (case args of
        CodeArgs addr sz \<Rightarrow>
          (if truthy user_data then callback [] (Some user_data) q
           else callback [] None q)
      | _ \<Rightarrow> Raised TypeError q)"

definition x86_syscall_callback ::
  "'uc user_callback \<Rightarrow> py_value \<Rightarrow> uc_args \<Rightarrow> 'uc ql \<Rightarrow> 'uc ql outcome" where
  "x86_syscall_callback callback user_data args q =
     (case args of
        InsnArgs [] \<Rightarrow>
          (if truthy user_data then callback [] (Some user_data) q
           else callback [] None q)
      | _ \<Rightarrow> Raised TypeError q)"

text \<open>
  In the second branch of \<^verbatim>\<open>hook_insn\<close> the engine gets the user's function itself, with
  \<^verbatim>\<open>user_data\<close> as its data: the engine calls it with the fields of the instruction and
  \<^verbatim>\<open>user_data\<close>, whatever its value, and nothing stands between the two.
\<close>

definition raw_insn_callback ::
  "'uc user_callback \<Rightarrow> py_value \<Rightarrow> uc_args \<Rightarrow> 'uc ql \<Rightarrow> 'uc ql outcome" where
  "raw_insn_callback callback user_data args q =
     (case args of
        InsnArgs insn_fields \<Rightarrow> callback insn_fields (Some user_data) q
      | _ \<Rightarrow> Raised TypeError q)"

text \<open>The registration methods, lines 317-503.\<close>

definition hook_code ::
  "('uc \<Rightarrow> 'uc) \<Rightarrow> 'uc user_callback \<Rightarrow> py_value \<Rightarrow> int \<Rightarrow> int \<Rightarrow> 'uc hook_add_call" where
  "hook_code emu_stop callback user_data begin_addr end_addr =
     \<lparr>htype = UC_HOOK_CODE,
      hook_fn = (\<lambda>args. catch_KeyboardInterrupt emu_stop (code_callback callback user_data args)),
      hook_begin = begin_addr, hook_end = end_addr, hook_arg1 = None\<rparr>"

definition hook_intr ::
  "('uc \<Rightarrow> 'uc) \<Rightarrow> 'uc user_callback \<Rightarrow> py_value \<Rightarrow> int \<Rightarrow> int \<Rightarrow> 'uc hook_add_call" where
  "hook_intr emu_stop callback user_data begin_addr end_addr =
     \<lparr>htype = UC_HOOK_INTR,
      hook_fn = (\<lambda>args. catch_KeyboardInterrupt emu_stop (intr_callback callback user_data args)),
      hook_begin = begin_addr, hook_end = end_addr, hook_arg1 = None\<rparr>"

definition hook_block ::
  "('uc \<Rightarrow> 'uc) \<Rightarrow> 'uc user_callback \<Rightarrow> py_value \<Rightarrow> int \<Rightarrow> int \<Rightarrow> 'uc hook_add_call" where
  "hook_block emu_stop callback user_data begin_addr end_addr =
     \<lparr>htype = UC_HOOK_BLOCK,
      hook_fn = (\<lambda>args. catch_KeyboardInterrupt emu_stop (code_callback callback user_data args)),
      hook_begin = begin_addr, hook_end = end_addr, hook_arg1 = None\<rparr>"

definition hook_mem_unmapped ::
  "('uc \<Rightarrow> 'uc) \<Rightarrow> 'uc user_callback \<Rightarrow> py_value \<Rightarrow> int \<Rightarrow> int \<Rightarrow> 'uc hook_add_call" where
  "hook_mem_unmapped emu_stop callback user_data begin_addr end_addr =
     \<lparr>htype = UC_HOOK_MEM_UNMAPPED,
      hook_fn = (\<lambda>args. catch_KeyboardInterrupt emu_stop (mem_callback callback user_data args)),
      hook_begin = begin_addr, hook_end = end_addr, hook_arg1 = None\<rparr>"

definition hook_mem_read_invalid ::
  "('uc \<Rightarrow> 'uc) \<Rightarrow> 'uc user_callback \<Rightarrow> py_value \<Rightarrow> int \<Rightarrow> int \<Rightarrow> 'uc hook_add_call" where
  "hook_mem_read_invalid emu_stop callback user_data begin_addr end_addr =
     \<lparr>htype = UC_HOOK_MEM_READ_INVALID,
      hook_fn = (\<lambda>args. catch_KeyboardInterrupt emu_stop (mem_callback callback user_data args)),
      hook_begin = begin_addr, hook_end = end_addr, hook_arg1 = None\<rparr>"

definition hook_mem_write_invalid ::
  "('uc \<Rightarrow> 'uc) \<Rightarrow> 'uc user_callback \<Rightarrow> py_value \<Rightarrow> int \<Rightarrow> int \<Rightarrow> 'uc hook_add_call" where
  "hook_mem_write_invalid emu_stop callback user_data begin_addr end_addr =
     \<lparr>htype = UC_HOOK_MEM_WRITE_INVALID,
      hook_fn = (\<lambda>args. catch_KeyboardInterrupt emu_stop (mem_callback callback user_data args)),
      hook_begin = begin_addr, hook_end = end_addr, hook_arg1 = None\<rparr>"

definition hook_mem_fetch_invalid ::
  "('uc \<Rightarrow> 'uc) \<Rightarrow> 'uc user_callback \<Rightarrow> py_value \<Rightarrow> int \<Rightarrow> int \<Rightarrow> 'uc hook_add_call" where
  "hook_mem_fetch_invalid emu_stop callback user_data begin_addr end_addr =
     \<lparr>htype = UC_HOOK_MEM_FETCH_INVALID,
      hook_fn = (\<lambda>args. catch_KeyboardInterrupt emu_stop (mem_callback callback user_data args)),
      hook_begin = begin_addr, hook_end = end_addr, hook_arg1 = None\<rparr>"

text \<open>\<^verbatim>\<open>hook_mem_invalid\<close> registers under \<^verbatim>\<open>UC_HOOK_MEM_VALID\<close> (line 429).\<close>

definition hook_mem_invalid ::
  "('uc \<Rightarrow> 'uc) \<Rightarrow> 'uc user_callback \<Rightarrow> py_value \<Rightarrow> int \<Rightarrow> int \<Rightarrow> 'uc hook_add_call" where
  "hook_mem_invalid emu_stop callback user_data begin_addr end_addr =
     \<lparr>htype = UC_HOOK_MEM_VALID,
      hook_fn = (\<lambda>args. catch_KeyboardInterrupt emu_stop (mem_callback callback user_data args)),
      hook_begin = begin_addr, hook_end = end_addr, hook_arg1 = None\<rparr>"

definition hook_address ::
  "('uc \<Rightarrow> 'uc) \<Rightarrow> 'uc user_callback \<Rightarrow> int \<Rightarrow> py_value \<Rightarrow> 'uc hook_add_call" where
  "hook_address emu_stop callback address user_data =
     \<lparr>htype = UC_HOOK_CODE,
      hook_fn = (\<lambda>args. catch_KeyboardInterrupt emu_stop (address_callback callback user_data args)),
      hook_begin = address, hook_end = address, hook_arg1 = None\<rparr>"

definition hook_mem_read ::
  "('uc \<Rightarrow> 'uc) \<Rightarrow> 'uc user_callback \<Rightarrow> py_value \<Rightarrow> int \<Rightarrow> int \<Rightarrow> 'uc hook_add_call" where
  "hook_mem_read emu_stop callback user_data begin_addr end_addr =
     \<lparr>htype = UC_HOOK_MEM_READ,
      hook_fn = (\<lambda>args. catch_KeyboardInterrupt emu_stop (mem_callback callback user_data args)),
      hook_begin = begin_addr, hook_end = end_addr, hook_arg1 = None\<rparr>"

definition hook_mem_write ::
  "('uc \<Rightarrow> 'uc) \<Rightarrow> 'uc user_callback \<Rightarrow> py_value \<Rightarrow> int \<Rightarrow> int \<Rightarrow> 'uc hook_add_call" where
  "hook_mem_write emu_stop callback user_data begin_addr end_addr =
     \<lparr>htype = UC_HOOK_MEM_WRITE,
      hook_fn = (\<lambda>args. catch_KeyboardInterrupt emu_stop (mem_callback callback user_data args)),
      hook_begin = begin_addr, hook_end = end_addr, hook_arg1 = None\<rparr>"

definition hook_mem_fetch ::
  "('uc \<Rightarrow> 'uc) \<Rightarrow> 'uc user_callback \<Rightarrow> py_value \<Rightarrow> int \<Rightarrow> int \<Rightarrow> 'uc hook_add_call" where
  "hook_mem_fetch emu_stop callback user_data begin_addr end_addr =
     \<lparr>htype = UC_HOOK_MEM_FETCH,
      hook_fn = (\<lambda>args. catch_KeyboardInterrupt emu_stop (mem_callback callback user_data args)),
      hook_begin = begin_addr, hook_end = end_addr, hook_arg1 = None\<rparr>"

definition hook_insn ::
  "('uc \<Rightarrow> 'uc) \<Rightarrow> 'uc user_callback \<Rightarrow> uc_x86_insn \<Rightarrow> py_value \<Rightarrow> int \<Rightarrow> int
     \<Rightarrow> 'uc hook_add_call" where
  "hook_insn emu_stop callback arg1 user_data begin_addr end_addr =
     (if arg1 = UC_X86_INS_SYSCALL then
        \<lparr>htype = UC_HOOK_INSN,
         hook_fn = (\<lambda>args. catch_KeyboardInterrupt emu_stop
                              (x86_syscall_callback callback user_data args)),
         hook_begin = begin_addr, hook_end = end_addr, hook_arg1 = Some arg1\<rparr>
      else
        \<lparr>htype = UC_HOOK_INSN,
         hook_fn = raw_insn_callback callback user_data,
         hook_begin = begin_addr, hook_end = end_addr, hook_arg1 = Some arg1\<rparr>)"

text \<open>
  The hook kinds, to speak about all registration methods at once. \<open>register\<close> calls the
  method of the kind; \<^verbatim>\<open>hook_address\<close> takes its address where the others take \<^verbatim>\<open>begin\<close>.
  \<open>callback_fields\<close> gives the event fields that the \<^verbatim>\<open>_callback\<close> of a kind passes on to
  the user callback, when the engine's fields have the shape that this kind of hook
  receives.
\<close>

datatype hook_kind =
    Hook_code | Hook_intr | Hook_block
  | Hook_mem_unmapped | Hook_mem_read_invalid | Hook_mem_write_invalid
  | Hook_mem_fetch_invalid | Hook_mem_invalid
  | Hook_address
  | Hook_mem_read | Hook_mem_write | Hook_mem_fetch
  | Hook_insn uc_x86_insn

fun register ::
  "('uc \<Rightarrow> 'uc) \<Rightarrow> hook_kind \<Rightarrow> 'uc user_callback \<Rightarrow> py_value \<Rightarrow> int \<Rightarrow> int
     \<Rightarrow> 'uc hook_add_call" where
  "register emu_stop Hook_code cb ud b e = hook_code emu_stop cb ud b e"
| "register emu_stop Hook_intr cb ud b e = hook_intr emu_stop cb ud b e"
| "register emu_stop Hook_block cb ud b e = hook_block emu_stop cb ud b e"
| "register emu_stop Hook_mem_unmapped cb ud b e = hook_mem_unmapped emu_stop cb ud b e"
| "register emu_stop Hook_mem_read_invalid cb ud b e = hook_mem_read_invalid emu_stop cb ud b e"
| "register emu_stop Hook_mem_write_invalid cb ud b e = hook_mem_write_invalid emu_stop cb ud b e"
| "register emu_stop Hook_mem_fetch_invalid cb ud b e = hook_mem_fetch_invalid emu_stop cb ud b e"
| "register emu_stop Hook_mem_invalid cb ud b e = hook_mem_invalid emu_stop cb ud b e"
| "register emu_stop Hook_address cb ud b e = hook_address emu_stop cb b ud"
| "register emu_stop Hook_mem_read cb ud b e = hook_mem_read emu_stop cb ud b e"
| "register emu_stop Hook_mem_write cb ud b e = hook_mem_write emu_stop cb ud b e"
| "register emu_stop Hook_mem_fetch cb ud b e = hook_mem_fetch emu_stop cb ud b e"
| "register emu_stop (Hook_insn arg1) cb ud b e = hook_insn emu_stop cb arg1 ud b e"

fun callback_fields :: "hook_kind \<Rightarrow> uc_args \<Rightarrow> int list option" where
  "callback_fields Hook_code (CodeArgs addr sz) = Some [addr, sz]"
| "callback_fields Hook_block (CodeArgs addr sz) = Some [addr, sz]"
| "callback_fields Hook_address (CodeArgs addr sz) = Some []"
| "callback_fields Hook_intr (IntrArgs intno) = Some [intno]"
| "callback_fields (Hook_insn arg1) (InsnArgs insn_fields) =
     (if arg1 = UC_X86_INS_SYSCALL then (if insn_fields = [] then Some [] else None)
      else Some insn_fields)"
| "callback_fields Hook_code args = None"
| "callback_fields Hook_block args = None"
| "callback_fields Hook_address args = None"
| "callback_fields Hook_intr args = None"
| "callback_fields (Hook_insn arg1) args = None"
| "callback_fields kind (MemArgs access addr sz val) = Some [addr, sz, val]"
| "callback_fields kind args = None"

text \<open>The kinds whose registered function is the decorated \<^verbatim>\<open>_callback\<close>.\<close>

fun bridged :: "hook_kind \<Rightarrow> bool" where
  "bridged (Hook_insn arg1) = (arg1 = UC_X86_INS_SYSCALL)"
| "bridged kind = True"


text \<open>
  For concrete runs: an engine whose state is the flag "stop requested", and a user
  callback that raises at once, whatever its arguments.
\<close>

definition flag_emu_stop :: "bool \<Rightarrow> bool" where
  "flag_emu_stop engine = True"

definition raising_callback :: "py_error \<Rightarrow> 'uc user_callback" where
  "raising_callback err fs user_data q = Raised err q"

text \<open>
  A user callback that notes the arguments of each of its calls and returns; the notes
  are kept where the engine state is.
\<close>

definition noting_callback :: "(int list \<times> py_value option) list user_callback" where
  "noting_callback fs user_data q = Returned (q\<lparr>uc := uc q @ [(fs, user_data)]\<rparr>)"

section \<open>Properties\<close>

subsection \<open>The registry invariant is preserved\<close>

lemma well_formed_Nil: "well_formed []"
  by (simp add: well_formed_def)

lemma well_formed_append:
  "well_formed (xs @ ys) =
     (well_formed xs \<and> well_formed ys \<and> (\<forall>x \<in> set xs. \<forall>y \<in> set ys. entry_end x \<le> entry_start y))"
  by (auto simp: well_formed_def sorted_wrt_append ends_before_def)

lemma well_formed_Cons:
  "well_formed (x # ys) =
     (entry_start x < entry_end x \<and> well_formed ys \<and> (\<forall>y \<in> set ys. entry_end x \<le> entry_start y))"
  by (auto simp: well_formed_def ends_before_def)

lemma insert_loop_flagged:
  assumes "well_formed tmp" "well_formed rest" "mem_s < mem_e" "flag \<noteq> 0"
    and "\<forall>r \<in> set rest. mem_s \<le> entry_start r"
    and "\<forall>r \<in> set rest. \<forall>t \<in> set tmp. entry_end t \<le> max (entry_start r) mem_e"
  shows "well_formed (fst (insert_loop mem_s mem_e mem_p mem_info rest tmp flag))
         \<and> snd (insert_loop mem_s mem_e mem_p mem_info rest tmp flag) \<noteq> 0"
  using assms
proof (induction rest arbitrary: tmp)
  case Nil
  then show ?case by simp
next
  case (Cons x rest)
  obtain s e p info where x: "x = (s, e, p, info)" by (cases x) auto
  from Cons.prems have se: "s < e" and ms: "mem_s \<le> s" and wr: "well_formed rest"
    and after: "\<forall>r \<in> set rest. e \<le> entry_start r"
    and bound: "\<forall>t \<in> set tmp. entry_end t \<le> max s mem_e"
    by (auto simp: x well_formed_Cons entry_start_def entry_end_def)
  have rest_s: "\<forall>r \<in> set rest. mem_s \<le> entry_start r"
    using Cons.prems by simp
  show ?case
  proof (cases "mem_e \<le> s")
    case True
    have wf': "well_formed (tmp @ [(s, e, p, info)])"
      using Cons.prems(1) se bound True
      by (auto simp: well_formed_append well_formed_Cons well_formed_Nil entry_start_def entry_end_def)
    have b': "\<forall>r \<in> set rest. \<forall>t \<in> set (tmp @ [(s, e, p, info)]). entry_end t \<le> max (entry_start r) mem_e"
    proof (intro ballI)
      fix r t
      assume r: "r \<in> set rest" and t: "t \<in> set (tmp @ [(s, e, p, info)])"
      from after r have "e \<le> entry_start r" by blast
      moreover have "entry_end t \<le> e"
        using t bound True se by (auto simp: entry_end_def)
      ultimately show "entry_end t \<le> max (entry_start r) mem_e" by simp
    qed
    from Cons.IH[OF wf' wr Cons.prems(3) Cons.prems(4) rest_s b']
    show ?thesis using True ms se Cons.prems(3,4) by (simp add: x)
  next
    case False
    let ?tmp3 = "if e > mem_e then tmp @ [(mem_e, e, mem_p, info)] else tmp"
    have wf': "well_formed ?tmp3"
      using Cons.prems(1) bound False
      by (auto simp: well_formed_append well_formed_Cons well_formed_Nil entry_start_def entry_end_def)
    have b': "\<forall>r \<in> set rest. \<forall>t \<in> set ?tmp3. entry_end t \<le> max (entry_start r) mem_e"
      using bound after False by (auto simp: entry_end_def max_def split: if_splits)
    from Cons.IH[OF wf' wr Cons.prems(3) Cons.prems(4) rest_s b']
    show ?thesis using False ms se Cons.prems(3,4) by (simp add: x Let_def)
  qed
qed

lemma insert_loop_unflagged:
  assumes "well_formed (tmp @ rest)" "mem_s < mem_e"
    and "\<forall>t \<in> set tmp. entry_end t \<le> mem_s"
  shows "well_formed (fst (insert_loop mem_s mem_e mem_p mem_info rest tmp 0))
         \<and> (snd (insert_loop mem_s mem_e mem_p mem_info rest tmp 0) = 0 \<longrightarrow>
              (\<forall>t \<in> set (fst (insert_loop mem_s mem_e mem_p mem_info rest tmp 0)). entry_end t \<le> mem_s))"
  using assms
proof (induction rest arbitrary: tmp)
  case Nil
  then show ?case by simp
next
  case (Cons x rest)
  obtain s e p info where x: "x = (s, e, p, info)" by (cases x) auto
  from Cons.prems have wt: "well_formed tmp" and se: "s < e" and wr: "well_formed rest"
    and after: "\<forall>r \<in> set rest. e \<le> entry_start r"
    and before: "\<forall>t \<in> set tmp. entry_end t \<le> s"
    by (auto simp: x well_formed_append well_formed_Cons entry_start_def entry_end_def)
  show ?case
  proof (cases "e \<le> mem_s")
    case True
    have wf': "well_formed ((tmp @ [(s, e, p, info)]) @ rest)"
      using Cons.prems(1) by (simp add: x)
    have b': "\<forall>t \<in> set (tmp @ [(s, e, p, info)]). entry_end t \<le> mem_s"
      using Cons.prems(3) True by (auto simp: entry_end_def)
    from Cons.IH[OF wf' Cons.prems(2) b'] show ?thesis using True by (simp add: x)
  next
    case notbefore: False
    have rest_s: "\<forall>r \<in> set rest. mem_s \<le> entry_start r"
      using after notbefore by fastforce
    show ?thesis
    proof (cases "mem_e \<le> s")
      case True
      let ?tmp' = "tmp @ [(mem_s, mem_e, mem_p, mem_info), (s, e, p, info)]"
      have wf': "well_formed ?tmp'"
        using wt se True Cons.prems(2,3)
        by (auto simp: well_formed_append well_formed_Cons well_formed_Nil entry_start_def entry_end_def)
      have b': "\<forall>r \<in> set rest. \<forall>t \<in> set ?tmp'. entry_end t \<le> max (entry_start r) mem_e"
        using Cons.prems(2,3) after by (auto simp: entry_end_def max_def split: if_splits)
      have "(1::nat) \<noteq> 0" by simp
      from insert_loop_flagged[OF wf' wr Cons.prems(2) this rest_s b', of mem_p mem_info]
      show ?thesis using True notbefore by (simp add: x)
    next
      case False
      let ?tmp1 = "if s < mem_s then tmp @ [(s, mem_s, mem_p, info)] else tmp"
      let ?tmp2 = "?tmp1 @ [(mem_s, mem_e, mem_p, mem_info)]"
      let ?tmp3 = "if e > mem_e then ?tmp2 @ [(mem_e, e, mem_p, info)] else ?tmp2"
      have wf': "well_formed ?tmp3"
        using wt before Cons.prems(2,3)
        by (auto simp: well_formed_append well_formed_Cons well_formed_Nil entry_start_def entry_end_def)
      have b': "\<forall>r \<in> set rest. \<forall>t \<in> set ?tmp3. entry_end t \<le> max (entry_start r) mem_e"
        using Cons.prems(2,3) after by (auto simp: entry_end_def max_def split: if_splits)
      have "(1::nat) \<noteq> 0" by simp
      from insert_loop_flagged[OF wf' wr Cons.prems(2) this rest_s b', of mem_p mem_info]
      show ?thesis using False notbefore by (simp add: x Let_def)
    qed
  qed
qed

lemma coalesce_well_formed:
  "well_formed (front @ cur # rest) \<Longrightarrow> well_formed (coalesce front cur rest)"
proof (induction rest arbitrary: front cur)
  case Nil
  then show ?case by (cases cur) simp
next
  case (Cons x rest)
  obtain s e p info where x: "x = (s, e, p, info)" by (cases x) auto
  obtain ls le lp linfo where c: "cur = (ls, le, lp, linfo)" by (cases cur) auto
  show ?case
  proof (cases "s = le \<and> info = lp")
    case True
    have "well_formed (front @ (ls, e, lp, linfo) # rest)"
      using Cons.prems True
      by (auto simp: x c well_formed_append well_formed_Cons entry_start_def entry_end_def)
    from Cons.IH[OF this] show ?thesis using True by (simp add: x c)
  next
    case False
    have "well_formed ((front @ [(ls, le, lp, linfo)]) @ (s, e, p, info) # rest)"
      using Cons.prems by (simp add: x c)
    from Cons.IH[OF this] show ?thesis using False by (auto simp add: x c)
  qed
qed

lemma build_tmp_map_info_well_formed:
  assumes "well_formed entries" "mem_s < mem_e"
  shows "well_formed (build_tmp_map_info entries mem_s mem_e mem_p mem_info)"
proof (cases "entries = []")
  case True
  then show ?thesis using assms(2)
    by (simp add: build_tmp_map_info_def well_formed_Cons well_formed_Nil entry_start_def entry_end_def)
next
  case False
  have wf0: "well_formed ([] @ entries)" using assms(1) by simp
  have b0: "\<forall>t \<in> set ([]::map_entry list). entry_end t \<le> mem_s" by simp
  obtain tmp flag where r: "insert_loop mem_s mem_e mem_p mem_info entries [] 0 = (tmp, flag)"
    by (cases "insert_loop mem_s mem_e mem_p mem_info entries [] 0") auto
  from insert_loop_unflagged[OF wf0 assms(2) b0, of mem_p mem_info] r
  have wt: "well_formed tmp" and fl: "flag = 0 \<longrightarrow> (\<forall>t \<in> set tmp. entry_end t \<le> mem_s)"
    by simp_all
  show ?thesis using False wt fl assms(2) r
    by (auto simp: build_tmp_map_info_def well_formed_append well_formed_Cons well_formed_Nil
        entry_start_def entry_end_def)
qed

lemma insert_loop_mono_length:
  "length tmp \<le> length (fst (insert_loop mem_s mem_e mem_p mem_info rest tmp flag))"
proof (induction rest arbitrary: tmp flag)
  case Nil
  then show ?case by simp
next
  case (Cons x rest)
  obtain s e p info where x: "x = (s, e, p, info)" by (cases x) auto
  show ?case
    unfolding x insert_loop.simps Let_def
    by (auto intro: order_trans[OF _ Cons.IH])
qed

subsection \<open>Inserting into the registry\<close>

lemma build_tmp_map_info_nonempty:
  "build_tmp_map_info entries mem_s mem_e mem_p mem_info \<noteq> []"
proof (cases entries)
  case Nil
  then show ?thesis by (simp add: build_tmp_map_info_def)
next
  case (Cons x rest)
  obtain s e p info where x: "x = (s, e, p, info)" by (cases x) auto
  have first: "1 \<le> length (fst (insert_loop mem_s mem_e mem_p mem_info (x # rest) [] 0))"
    unfolding x insert_loop.simps Let_def
    by (auto intro: order_trans[OF _ insert_loop_mono_length])
  obtain tmp flag where r: "insert_loop mem_s mem_e mem_p mem_info (x # rest) [] 0 = (tmp, flag)"
    by (cases "insert_loop mem_s mem_e mem_p mem_info (x # rest) [] 0") auto
  from first r have "tmp \<noteq> []" by auto
  then show ?thesis by (simp add: build_tmp_map_info_def Cons r)
qed

lemma insert_map_info_total:
  "\<exists>r. insert_map_info entries mem_s mem_e mem_p mem_info = Inr r"
  using build_tmp_map_info_nonempty[of entries mem_s mem_e mem_p mem_info]
  by (cases "build_tmp_map_info entries mem_s mem_e mem_p mem_info")
     (simp_all add: insert_map_info_def)

lemma insert_map_info_well_formed:
  assumes "well_formed entries" "mem_s < mem_e"
  shows "\<exists>r. insert_map_info entries mem_s mem_e mem_p mem_info = Inr r \<and> well_formed r"
proof -
  let ?tmp = "build_tmp_map_info entries mem_s mem_e mem_p mem_info"
  obtain t0 ts where tmp: "?tmp = t0 # ts"
    using build_tmp_map_info_nonempty[of entries mem_s mem_e mem_p mem_info]
    by (cases ?tmp) auto
  have "well_formed ([] @ t0 # ts)"
    using build_tmp_map_info_well_formed[OF assms, of mem_p mem_info] tmp by simp
  then have "well_formed (coalesce [] t0 ts)" by (rule coalesce_well_formed)
  then show ?thesis by (simp add: insert_map_info_def tmp)
qed

lemma insert_map_infos_well_formed:
  assumes "well_formed entries" "\<forall>c \<in> set calls. fst c < fst (snd c)"
  shows "\<exists>r. insert_map_infos entries calls = Inr r \<and> well_formed r"
  using assms
proof (induction calls arbitrary: entries)
  case Nil
  then show ?case by simp
next
  case (Cons c calls)
  obtain mem_s mem_e mem_p mem_info where c: "c = (mem_s, mem_e, mem_p, mem_info)"
    by (cases c) auto
  from Cons.prems(2) have lt: "mem_s < mem_e" by (simp add: c)
  from insert_map_info_well_formed[OF Cons.prems(1) lt, of mem_p mem_info]
  obtain m' where m': "insert_map_info entries mem_s mem_e mem_p mem_info = Inr m'"
    and wf': "well_formed m'" by blast
  from Cons.prems(2) have "\<forall>c \<in> set calls. fst c < fst (snd c)" by simp
  from Cons.IH[OF wf' this] show ?case by (simp add: c m')
qed

lemma well_formed_sorted_starts:
  "well_formed m \<Longrightarrow> sorted_wrt (\<lambda>a b. entry_start a < entry_start b) m"
proof (induction m)
  case Nil
  then show ?case by simp
next
  case (Cons x m)
  then show ?case by (fastforce simp: well_formed_Cons)
qed

lemma well_formed_disjoint:
  assumes "well_formed m" "i < j" "j < length m"
  shows "entry_end (m ! i) \<le> entry_start (m ! j)"
proof -
  from assms(1) have "sorted_wrt ends_before m" by (simp add: well_formed_def)
  from sorted_wrt_nth_less[OF this assms(2,3)] show ?thesis by (simp add: ends_before_def)
qed

text \<open>
  Claim C7. Start from the empty registry and make any sequence of \<^verbatim>\<open>insert_map_info\<close>
  calls, each with \<open>start < end\<close>. After every call (after the first \<open>n\<close> calls, for every
  \<open>n\<close>) the call has returned without raising, the entries are strictly sorted by start, no
  entry reaches beyond the start of a later one (the ranges are pairwise disjoint), and
  every entry is a non-empty range.
\<close>

theorem insert_map_info_sorted_disjoint:
  assumes "\<forall>c \<in> set calls. fst c < fst (snd c)"
  shows "\<exists>r. insert_map_infos [] (take n calls) = Inr r
           \<and> sorted_wrt (\<lambda>a b. entry_start a < entry_start b) r
           \<and> (\<forall>i j. i < j \<and> j < length r \<longrightarrow> entry_end (r ! i) \<le> entry_start (r ! j))
           \<and> (\<forall>x \<in> set r. entry_start x < entry_end x)"
proof -
  have "\<forall>c \<in> set (take n calls). fst c < fst (snd c)"
    using assms by (meson in_set_takeD)
  from insert_map_infos_well_formed[OF well_formed_Nil this]
  obtain r where r: "insert_map_infos [] (take n calls) = Inr r" and wf: "well_formed r"
    by blast
  have "\<forall>x \<in> set r. entry_start x < entry_end x" using wf by (simp add: well_formed_def)
  with r well_formed_sorted_starts[OF wf] well_formed_disjoint[OF wf] show ?thesis by blast
qed

text \<open>The hypothesis of C7 at three concrete calls, the last two cutting into earlier ranges.\<close>

theorem insert_map_info_sorted_disjoint_witness:
  "(4096::int) < 20480 \<and> (8192::int) < 12288 \<and> (0::int) < 6000
   \<and> (\<exists>r. insert_map_infos []
            (take 3 [(4096, 20480, ''r-x'', ''a''), (8192, 12288, ''rw-'', ''b''), (0, 6000, ''rwx'', ''c'')]) = Inr r
         \<and> sorted_wrt (\<lambda>a b. entry_start a < entry_start b) r
         \<and> (\<forall>i j. i < j \<and> j < length r \<longrightarrow> entry_end (r ! i) \<le> entry_start (r ! j))
         \<and> (\<forall>x \<in> set r. entry_start x < entry_end x))"
proof -
  have h: "\<forall>c \<in> set [(4096, 20480, ''r-x'', ''a''), (8192, 12288, ''rw-'', ''b''), (0, 6000::int, ''rwx'', ''c'')].
      fst c < fst (snd c)" by simp
  from insert_map_info_sorted_disjoint[OF h, of 3] show ?thesis by simp
qed

text \<open>
  Claim C2. The claim wants adjacent entries with equal labels and no gap merged, and the
  three inserts of its example collapsed to \<open>(0x1000, 0x4000, r-x, a)\<close>. The merge test of the
  code compares the label of the next entry with the perms of the last one
  (\<^verbatim>\<open>info == map_info[-1][2]\<close>), so on the example nothing is merged: the registry keeps
  three adjacent entries, all labelled \<open>a\<close>, with \<open>end\<^sub>i = start\<^sub>i\<^sub>+\<^sub>1\<close>.
\<close>

theorem coalesce_example_not_collapsed:
  "insert_map_infos []
     [(0x1000, 0x2000, ''r-x'', ''a''), (0x3000, 0x4000, ''r-x'', ''a''),
      (0x2000, 0x3000, ''r-x'', ''a'')]
   = Inr [(0x1000, 0x2000, ''r-x'', ''a''), (0x2000, 0x3000, ''r-x'', ''a''),
          (0x3000, 0x4000, ''r-x'', ''a'')]"
  by (simp add: insert_map_info_def build_tmp_map_info_def)

text \<open>
  Claim C3. The claim wants the prefix and the suffix of a split entry to keep the old
  perms. The code appends both with \<^verbatim>\<open>mem_p\<close>, the perms of the incoming range, and the
  old label: on the example of the claim the two outer pieces come out as \<open>rw-\<close>, not
  \<open>r-x\<close>.
\<close>

theorem split_example_new_perms:
  "insert_map_info [(0x1000, 0x5000, ''r-x'', ''a'')] 0x2000 0x3000 ''rw-'' ''b''
   = Inr [(0x1000, 0x2000, ''rw-'', ''a''), (0x2000, 0x3000, ''rw-'', ''b''),
          (0x3000, 0x5000, ''rw-'', ''a'')]"
  by (simp add: insert_map_info_def build_tmp_map_info_def)

text \<open>
  Claim C8, as stated, fails: an empty range is not ignored. Inserted into the empty
  registry it leaves a registry that is not empty.
\<close>

theorem empty_range_not_ignored:
  "insert_map_info [] 4096 4096 ''r-x'' ''a'' \<noteq> Inr []"
  by (simp add: insert_map_info_def build_tmp_map_info_def)

text \<open>
  An empty range at \<open>a\<close>: the first loop passes over the entries that end at or before
  \<open>a\<close>, and keeps the entries that start at or after \<open>a\<close> and end after it.
\<close>

lemma insert_loop_skips_before:
  "\<forall>x \<in> set before. entry_end x \<le> mem_s \<Longrightarrow>
     insert_loop mem_s mem_e mem_p mem_info (before @ rest) tmp flag =
     insert_loop mem_s mem_e mem_p mem_info rest (tmp @ before) flag"
proof (induction before arbitrary: tmp)
  case Nil
  then show ?case by simp
next
  case (Cons x before)
  obtain s e p info where x: "x = (s, e, p, info)" by (cases x) auto
  from Cons.prems have "e \<le> mem_s" and rest: "\<forall>x \<in> set before. entry_end x \<le> mem_s"
    by (auto simp: x entry_end_def)
  then show ?case using Cons.IH[OF rest, of "tmp @ [(s, e, p, info)]"] by (simp add: x)
qed

lemma insert_loop_keeps_after:
  "\<forall>x \<in> set after. a \<le> entry_start x \<and> a < entry_end x \<Longrightarrow> flag \<noteq> 0 \<Longrightarrow>
     insert_loop a a mem_p mem_info after tmp flag = (tmp @ after, flag)"
proof (induction after arbitrary: tmp)
  case Nil
  then show ?case by simp
next
  case (Cons x after)
  obtain s e p info where x: "x = (s, e, p, info)" by (cases x) auto
  from Cons.prems have "a \<le> s" "a < e"
    and rest: "\<forall>x \<in> set after. a \<le> entry_start x \<and> a < entry_end x"
    by (auto simp: x entry_start_def entry_end_def)
  then show ?case using Cons.IH[OF rest Cons.prems(2), of "tmp @ [(s, e, p, info)]"] Cons.prems(2)
    by (simp add: x)
qed

lemma build_tmp_empty_range_between:
  assumes "\<forall>x \<in> set before. entry_end x \<le> a"
    and "\<forall>x \<in> set after. a \<le> entry_start x \<and> a < entry_end x"
  shows "build_tmp_map_info (before @ after) a a p l = before @ [(a, a, p, l)] @ after"
proof (cases after)
  case Nil
  show ?thesis
    using insert_loop_skips_before[OF assms(1), of a p l "[]" "[]" 0]
    by (simp add: build_tmp_map_info_def Nil)
next
  case (Cons x after')
  obtain s e p0 info where x: "x = (s, e, p0, info)" by (cases x) auto
  from assms(2) have se: "a \<le> s" "a < e"
    and rest: "\<forall>x \<in> set after'. a \<le> entry_start x \<and> a < entry_end x"
    by (auto simp: Cons x entry_start_def entry_end_def)
  have "insert_loop a a p l (x # after') before 0 = (before @ [(a, a, p, l)] @ x # after', 1)"
    using se insert_loop_keeps_after[OF rest, of 1 p l "before @ [(a, a, p, l), (s, e, p0, info)]"]
    by (simp add: x)
  then show ?thesis
    using insert_loop_skips_before[OF assms(1), of a p l "x # after'" "[]" 0]
    by (simp add: build_tmp_map_info_def Cons)
qed

lemma build_tmp_empty_range_inside:
  assumes "\<forall>x \<in> set before. entry_end x \<le> a"
    and "\<forall>x \<in> set after. a \<le> entry_start x \<and> a < entry_end x"
    and "s < a" "a < e"
  shows "build_tmp_map_info (before @ [(s, e, p0, l0)] @ after) a a p l =
           before @ [(s, a, p, l0), (a, a, p, l), (a, e, p, l0)] @ after"
proof -
  have "insert_loop a a p l ((s, e, p0, l0) # after) before 0 =
          (before @ [(s, a, p, l0), (a, a, p, l), (a, e, p, l0)] @ after, 1)"
    using assms(3,4)
      insert_loop_keeps_after[OF assms(2), of 1 p l "before @ [(s, a, p, l0), (a, a, p, l), (a, e, p, l0)]"]
    by (simp add: Let_def)
  then show ?thesis
    using insert_loop_skips_before[OF assms(1), of a p l "(s, e, p0, l0) # after" "[]" 0]
    by (simp add: build_tmp_map_info_def)
qed

text \<open>
  Claim C8, amended. A call with \<open>start = end = a\<close> is processed like any other. When the
  registry consists of entries that end at or before \<open>a\<close>, followed by entries that start
  at or after \<open>a\<close> and end after it, the zero-length entry \<open>(a, a, perms, label)\<close> is put
  between the two groups. When one more entry \<open>(s, e, _, l0)\<close> with \<open>s < a < e\<close> lies between
  the groups, it is cut into a piece that ends at \<open>a\<close> and a piece that starts at \<open>a\<close>,
  both labelled \<open>l0\<close>, with the zero-length entry between them. The registry after the
  call is what the coalescing pass of \<^verbatim>\<open>insert_map_info\<close> makes of that list. On the empty
  registry this is the single entry \<open>(a, a, perms, label)\<close>; inserting
  \<open>(0x3000, 0x3000, rw-, b)\<close> into \<open>[(0x1000, 0x2000, r-x, a)]\<close> appends it.
\<close>

theorem empty_range_processed:
  assumes "\<forall>x \<in> set before. entry_end x \<le> a"
    and "\<forall>x \<in> set after. a \<le> entry_start x \<and> a < entry_end x"
  shows "(\<exists>t0 ts. before @ [(a, a, p, l)] @ after = t0 # ts
            \<and> insert_map_info (before @ after) a a p l = Inr (coalesce [] t0 ts))
       \<and> (s < a \<and> a < e \<longrightarrow>
            (\<exists>pp ps t0 ts. before @ [(s, a, pp, l0), (a, a, p, l), (a, e, ps, l0)] @ after = t0 # ts
               \<and> insert_map_info (before @ [(s, e, p0, l0)] @ after) a a p l
                   = Inr (coalesce [] t0 ts)))
       \<and> insert_map_info [] a a p l = Inr [(a, a, p, l)]
       \<and> insert_map_info [(0x1000, 0x2000, ''r-x'', ''a'')] 0x3000 0x3000 ''rw-'' ''b''
            = Inr [(0x1000, 0x2000, ''r-x'', ''a''), (0x3000, 0x3000, ''rw-'', ''b'')]"
proof (intro conjI impI)
  show "\<exists>t0 ts. before @ [(a, a, p, l)] @ after = t0 # ts
            \<and> insert_map_info (before @ after) a a p l = Inr (coalesce [] t0 ts)"
    by (cases "before @ [(a, a, p, l)] @ after")
       (simp_all add: insert_map_info_def build_tmp_empty_range_between[OF assms])
next
  assume "s < a \<and> a < e"
  then have b: "build_tmp_map_info (before @ [(s, e, p0, l0)] @ after) a a p l =
           before @ [(s, a, p, l0), (a, a, p, l), (a, e, p, l0)] @ after"
    using build_tmp_empty_range_inside[OF assms] by blast
  obtain t0 ts where t: "before @ [(s, a, p, l0), (a, a, p, l), (a, e, p, l0)] @ after = t0 # ts"
    by (cases "before @ [(s, a, p, l0), (a, a, p, l), (a, e, p, l0)] @ after") auto
  have "insert_map_info (before @ [(s, e, p0, l0)] @ after) a a p l = Inr (coalesce [] t0 ts)"
    using b t by (simp add: insert_map_info_def)
  with t show "\<exists>pp ps t0 ts. before @ [(s, a, pp, l0), (a, a, p, l), (a, e, ps, l0)] @ after = t0 # ts
               \<and> insert_map_info (before @ [(s, e, p0, l0)] @ after) a a p l
                   = Inr (coalesce [] t0 ts)" by blast
next
  show "insert_map_info [] a a p l = Inr [(a, a, p, l)]"
    by (simp add: insert_map_info_def build_tmp_map_info_def)
next
  show "insert_map_info [(0x1000, 0x2000, ''r-x'', ''a'')] 0x3000 0x3000 ''rw-'' ''b''
            = Inr [(0x1000, 0x2000, ''r-x'', ''a''), (0x3000, 0x3000, ''rw-'', ''b'')]"
    by (simp add: insert_map_info_def build_tmp_map_info_def)
qed

text \<open>
  The hypotheses of C8 at \<open>a = 0x4000\<close>, between two entries and inside a third.
\<close>

theorem empty_range_processed_witness:
  "entry_end (0x1000, 0x2000, ''r-x'', ''a'') \<le> (0x4000::int)
   \<and> (0x4000::int) \<le> entry_start (0x6000, 0x7000, ''r--'', ''c'')
   \<and> (0x4000::int) < entry_end (0x6000, 0x7000, ''r--'', ''c'')
   \<and> (0x3000::int) < 0x4000 \<and> (0x4000::int) < 0x5000
   \<and> insert_map_info [(0x1000, 0x2000, ''r-x'', ''a''), (0x6000, 0x7000, ''r--'', ''c'')]
        0x4000 0x4000 ''rw-'' ''b''
       = Inr [(0x1000, 0x2000, ''r-x'', ''a''), (0x4000, 0x4000, ''rw-'', ''b''),
              (0x6000, 0x7000, ''r--'', ''c'')]
   \<and> (\<exists>pp ps.
         insert_map_info [(0x1000, 0x2000, ''r-x'', ''a''), (0x3000, 0x5000, ''r-x'', ''d''),
                          (0x6000, 0x7000, ''r--'', ''c'')]
           0x4000 0x4000 ''rw-'' ''b''
         = Inr (coalesce [] (0x1000, 0x2000, ''r-x'', ''a'')
                  [(0x3000, 0x4000, pp, ''d''), (0x4000, 0x4000, ''rw-'', ''b''),
                   (0x4000, 0x5000, ps, ''d''), (0x6000, 0x7000, ''r--'', ''c'')]))"
proof -
  let ?before = "[(0x1000, 0x2000, ''r-x'', ''a'')] :: map_entry list"
  let ?after = "[(0x6000, 0x7000, ''r--'', ''c'')] :: map_entry list"
  have h1: "\<forall>x \<in> set ?before. entry_end x \<le> 0x4000" by (simp add: entry_end_def)
  have h2: "\<forall>x \<in> set ?after. 0x4000 \<le> entry_start x \<and> 0x4000 < entry_end x"
    by (simp add: entry_start_def entry_end_def)
  note th = empty_range_processed[OF h1 h2, of "''rw-''" "''b''" "0x3000" "0x5000" "''d''" "''r-x''"]
  from th have c1: "\<exists>t0 ts. ?before @ [(0x4000, 0x4000, ''rw-'', ''b'')] @ ?after = t0 # ts
            \<and> insert_map_info (?before @ ?after) 0x4000 0x4000 ''rw-'' ''b'' = Inr (coalesce [] t0 ts)"
    by blast
  then have r1: "insert_map_info [(0x1000, 0x2000, ''r-x'', ''a''), (0x6000, 0x7000, ''r--'', ''c'')]
        0x4000 0x4000 ''rw-'' ''b''
       = Inr [(0x1000, 0x2000, ''r-x'', ''a''), (0x4000, 0x4000, ''rw-'', ''b''),
              (0x6000, 0x7000, ''r--'', ''c'')]"
    by auto
  from th have c2: "\<exists>pp ps t0 ts.
      ?before @ [(0x3000, 0x4000, pp, ''d''), (0x4000, 0x4000, ''rw-'', ''b''), (0x4000, 0x5000, ps, ''d'')] @ ?after
        = t0 # ts
      \<and> insert_map_info (?before @ [(0x3000, 0x5000, ''r-x'', ''d'')] @ ?after) 0x4000 0x4000 ''rw-'' ''b''
          = Inr (coalesce [] t0 ts)"
    by simp
  then have r2: "\<exists>pp ps.
         insert_map_info [(0x1000, 0x2000, ''r-x'', ''a''), (0x3000, 0x5000, ''r-x'', ''d''),
                          (0x6000, 0x7000, ''r--'', ''c'')]
           0x4000 0x4000 ''rw-'' ''b''
         = Inr (coalesce [] (0x1000, 0x2000, ''r-x'', ''a'')
                  [(0x3000, 0x4000, pp, ''d''), (0x4000, 0x4000, ''rw-'', ''b''),
                   (0x4000, 0x5000, ps, ''d''), (0x6000, 0x7000, ''r--'', ''c'')])"
    by auto
  from r1 r2 show ?thesis by (simp add: entry_start_def entry_end_def)
qed

subsection \<open>The verbose gate\<close>

text \<open>What the gate rejects: a non-integer, or an integer above 99 with an output other than debug and dump.\<close>

lemma verbose_rejected_iff:
  "verbose_rejected v out =
     ((\<forall>n. v \<noteq> PyInt n) \<or> (\<exists>n. v = PyInt n \<and> n > 99 \<and> out \<noteq> Some QL_OUT_DEBUG \<and> out \<noteq> Some QL_OUT_DUMP))"
  by (cases v) (auto simp: verbose_rejected_def)

text \<open>
  Claim C6. The claim wants \<^verbatim>\<open>QlErrorOutput\<close> whenever \<open>verbose > 99\<close> and whenever
  \<open>verbose > 0\<close> with an output other than debug or dump, as the two messages of the code
  say ("verbose required input as int and less than 99", "ql.verbose > 1 must use with
  QL_OUT_DEBUG, QL_OUT_DUMP"). The test joins the two conditions with \<^verbatim>\<open>and\<close>, so it
  rejects an integer only when both hold: \<open>verbose = 100\<close> with output debug is accepted,
  and so is \<open>verbose = 5\<close> with output default.
\<close>

theorem verbose_gate_accepts_violations:
  "init_verbose_check (ql_init 32 QL_ENDIAN_EL (PyInt 100) (Some QL_OUT_DEBUG) ()) = Inr ()
   \<and> init_verbose_check (ql_init 32 QL_ENDIAN_EL (PyInt 5) (Some QL_OUT_DEFAULT) ()) = Inr ()"
  by (simp add: init_verbose_check_def verbose_rejected_def ql_init_def)

subsection \<open>Packing\<close>





text \<open>The signed forms read two's complement: \<open>ff ff ff fe\<close> is \<open>-2\<close>, in either order.\<close>

lemma unpacks_minus_two:
  "unpacks QL_ENDIAN_EL (ql_init 32 QL_ENDIAN_EB v out engine) [255, 255, 255, 254] = Inr (-2)
   \<and> unpacks QL_ENDIAN_EL (ql_init 32 QL_ENDIAN_EL v out engine) [254, 255, 255, 255] = Inr (-2)
   \<and> unpack QL_ENDIAN_EL (ql_init 32 QL_ENDIAN_EL v out engine) [254, 255, 255] = Inl StructError"
  by (simp add: unpacks_def unpack32s_def unpack_def unpack32_def struct_unpack_signed_def
      struct_unpack_unsigned_def in_order_def ql_init_def)




subsection \<open>Patches\<close>

text \<open>
  \<^verbatim>\<open>enable_lib_patch\<close> does what applying binary patches at load base 0 does, on the
  addresses \<open>get_lib_base label + addr\<close>; for a label that no entry matches this is
  \<open>-1 + addr\<close>.
\<close>

lemma lib_patch_loop_as_bin_patch_loop:
  "lib_patch_loop os_path_split mem_write entries patches engine =
     bin_patch_loop mem_write 0
       (map (\<lambda>(addr, code, filename). (get_lib_base os_path_split entries filename + addr, code))
          patches) engine"
  by (induction patches arbitrary: engine) (auto split: sum.splits)

lemma get_lib_base_unmapped:
  "\<forall>entry \<in> set entries. snd (os_path_split (entry_label entry)) \<noteq> filename \<Longrightarrow>
     get_lib_base os_path_split entries filename = -1"
  by (induction entries) (auto simp: entry_label_def)

text \<open>
  Claim C4. The claim wants a pending library patch whose label has no base skipped
  without a write, and the others written at \<open>base + addr\<close>. \<^verbatim>\<open>__get_lib_base\<close> returns
  the sentinel \<open>-1\<close> for such a label and \<^verbatim>\<open>enable_lib_patch\<close> adds it to \<open>addr\<close> unchecked.
  With \<open>libm.so\<close> mapped at \<open>0x7000\<close> and pending patches for \<open>libc.so.6\<close> (not mapped, at
  16) and \<open>libm.so\<close> (at 32): an engine that accepts every write is asked to write at
  address 15 first; an engine that has only \<open>0x7000-0x8000\<close> mapped refuses that write,
  the call raises, and the patch for the mapped library is never written.
\<close>

theorem lib_patch_unmapped_is_written:
  "map_sum id uc
     (enable_lib_patch posixpath_split recording_mem_write
        ((ql_init 64 QL_ENDIAN_EL (PyInt 0) None [])
           \<lparr>patch_lib := [(16, [0x90], ''libc.so.6''), (32, [0x90], ''libm.so'')],
            map_info := [(0x7000, 0x8000, ''r-x'', ''/lib/libm.so'')]\<rparr>))
   = Inr [(15, [0x90]), (0x7020, [0x90])]
   \<and> enable_lib_patch posixpath_split (mapped_mem_write 0x7000 0x8000)
        ((ql_init 64 QL_ENDIAN_EL (PyInt 0) None [])
           \<lparr>patch_lib := [(16, [0x90], ''libc.so.6''), (32, [0x90], ''libm.so'')],
            map_info := [(0x7000, 0x8000, ''r-x'', ''/lib/libm.so'')]\<rparr>)
   = Inl UcError"
  by (simp add: enable_lib_patch_def ql_init_def recording_mem_write_def mapped_mem_write_def
      posixpath_split_def)






subsection \<open>Hooks\<close>

text \<open>Without a current thread, \<^verbatim>\<open>stop\<close> raises, and so does the wrapper that calls it.\<close>

lemma stop_without_current_thread:
  "thread_management q = Some tm \<Longrightarrow> cur_thread tm = None \<Longrightarrow>
     stop emu_stop q ev = Raised AttributeError q"
  by (simp add: stop_def)

lemma wrapper_without_current_thread:
  "hook_fn (register flag_emu_stop Hook_code (raising_callback KeyboardInterrupt) PyNone 1 0)
     (CodeArgs 4096 4)
     ((ql_init 32 QL_ENDIAN_EL (PyInt 0) None False)\<lparr>thread_management := Some \<lparr>cur_thread = None\<rparr>\<rparr>)
   = Raised AttributeError
       ((ql_init 32 QL_ENDIAN_EL (PyInt 0) None False)\<lparr>thread_management := Some \<lparr>cur_thread = None\<rparr>\<rparr>)"
  by (simp add: hook_code_def code_callback_def catch_KeyboardInterrupt_def raising_callback_def
      stop_def ql_init_def)

text \<open>
  For every instruction but the syscall, what \<^verbatim>\<open>hook_insn\<close> registers is the user's
  function, called with the fields of the instruction and \<^verbatim>\<open>user_data\<close>.
\<close>

lemma hook_insn_undecorated:
  "arg1 \<noteq> UC_X86_INS_SYSCALL \<Longrightarrow>
     hook_fn (register emu_stop (Hook_insn arg1) callback user_data b en) (InsnArgs insn_fields) q
       = callback insn_fields (Some user_data) q"
  by (simp add: hook_insn_def raw_insn_callback_def)

text \<open>What the engine calls, for a bridged kind: the decorated call of the user callback.\<close>

lemma bridged_hook_fn:
  "bridged kind \<Longrightarrow> callback_fields kind args = Some fs \<Longrightarrow>
     hook_fn (register emu_stop kind callback user_data b en) args q =
       catch_KeyboardInterrupt emu_stop
         (callback fs (if truthy user_data then Some user_data else None)) q"
  by (cases kind; cases args)
     (auto simp: hook_code_def hook_intr_def hook_block_def hook_mem_unmapped_def
        hook_mem_read_invalid_def hook_mem_write_invalid_def hook_mem_fetch_invalid_def
        hook_mem_invalid_def hook_address_def hook_mem_read_def hook_mem_write_def
        hook_mem_fetch_def hook_insn_def code_callback_def intr_callback_def mem_callback_def
        address_callback_def x86_syscall_callback_def catch_KeyboardInterrupt_def
        split: if_splits list.splits)

text \<open>
  Claim C1, as stated, fails for \<^verbatim>\<open>hook_insn\<close>: for an instruction other than
  \<^verbatim>\<open>UC_X86_INS_SYSCALL\<close> the user callback is registered as it is. A callback that raises
  \<^verbatim>\<open>KeyboardInterrupt\<close> on an \<^verbatim>\<open>IN\<close> instruction raises into the engine; nothing is
  recorded and the engine is not stopped.
\<close>

theorem hook_insn_exception_escapes:
  "hook_fn (register flag_emu_stop (Hook_insn UC_X86_INS_IN) (raising_callback KeyboardInterrupt)
              PyNone 1 0)
     (InsnArgs [96, 1]) (ql_init 32 QL_ENDIAN_EL (PyInt 0) None False)
   = Raised KeyboardInterrupt (ql_init 32 QL_ENDIAN_EL (PyInt 0) None False)"
  by (simp add: hook_insn_def raw_insn_callback_def raising_callback_def)

text \<open>
  Claim C1, amended. For every hook kind but \<^verbatim>\<open>hook_insn\<close> on an instruction other than
  \<^verbatim>\<open>UC_X86_INS_SYSCALL\<close>: if the user callback, called with the event fields of the kind
  (and with \<^verbatim>\<open>user_data\<close> if it is truthy), raises \<open>e\<close>, and there is no thread manager or
  the thread manager has a current thread, then the wrapper calls \<^verbatim>\<open>stop\<close> with the
  UNEXPECTED event, which marks the current thread (if any) stopped with that event and
  tells the engine to stop, records \<open>e\<close> in \<^verbatim>\<open>internal_exception\<close> and returns to the
  engine.
\<close>

theorem bridged_exception_caught:
  assumes "bridged kind" and "callback_fields kind args = Some fs"
    and "callback fs (if truthy user_data then Some user_data else None) q = Raised e q'"
    and "thread_management q' = None
         \<or> (\<exists>tm td. thread_management q' = Some tm \<and> cur_thread tm = Some td)"
  shows "\<exists>qs. stop emu_stop q' THREAD_EVENT_UNEXECPT_EVENT = Returned qs
           \<and> uc qs = emu_stop (uc q')
           \<and> (\<forall>tm td. thread_management q' = Some tm \<and> cur_thread tm = Some td \<longrightarrow>
                  thread_management qs =
                    Some (tm\<lparr>cur_thread :=
                      Some (td\<lparr>td_stopped := True,
                               td_stop_event := Some THREAD_EVENT_UNEXECPT_EVENT\<rparr>)\<rparr>))
           \<and> hook_fn (register emu_stop kind callback user_data b en) args q
               = Returned (qs\<lparr>internal_exception := Some e\<rparr>)"
proof -
  from assms(4) obtain qs where qs: "stop emu_stop q' THREAD_EVENT_UNEXECPT_EVENT = Returned qs"
    and u: "uc qs = emu_stop (uc q')"
    and t: "\<forall>tm td. thread_management q' = Some tm \<and> cur_thread tm = Some td \<longrightarrow>
                  thread_management qs =
                    Some (tm\<lparr>cur_thread :=
                      Some (td\<lparr>td_stopped := True,
                               td_stop_event := Some THREAD_EVENT_UNEXECPT_EVENT\<rparr>)\<rparr>)"
    by (auto simp: stop_def td_stop_def)
  have "hook_fn (register emu_stop kind callback user_data b en) args q
          = Returned (qs\<lparr>internal_exception := Some e\<rparr>)"
    unfolding bridged_hook_fn[OF assms(1,2)]
    by (simp add: catch_KeyboardInterrupt_def assms(3) qs)
  with qs u t show ?thesis by blast
qed

text \<open>
  The hypotheses of C1 at a code hook whose callback raises \<^verbatim>\<open>KeyboardInterrupt\<close>, with a
  thread manager and a running current thread: the thread is marked stopped with the
  UNEXPECTED event, the engine is told to stop, and the exception is recorded.
\<close>

theorem bridged_exception_caught_witness:
  "bridged Hook_code \<and> callback_fields Hook_code (CodeArgs 4096 4) = Some [4096, 4]
   \<and> raising_callback KeyboardInterrupt [4096, 4] (if truthy PyNone then Some PyNone else None)
        ((ql_init 32 QL_ENDIAN_EL (PyInt 0) None False)
           \<lparr>thread_management :=
              Some \<lparr>cur_thread = Some \<lparr>td_stopped = False, td_stop_event = None\<rparr>\<rparr>\<rparr>)
       = Raised KeyboardInterrupt
           ((ql_init 32 QL_ENDIAN_EL (PyInt 0) None False)
              \<lparr>thread_management :=
                 Some \<lparr>cur_thread = Some \<lparr>td_stopped = False, td_stop_event = None\<rparr>\<rparr>\<rparr>)
   \<and> hook_fn (register flag_emu_stop Hook_code (raising_callback KeyboardInterrupt) PyNone 1 0)
        (CodeArgs 4096 4)
        ((ql_init 32 QL_ENDIAN_EL (PyInt 0) None False)
           \<lparr>thread_management :=
              Some \<lparr>cur_thread = Some \<lparr>td_stopped = False, td_stop_event = None\<rparr>\<rparr>\<rparr>)
       = Returned
           ((ql_init 32 QL_ENDIAN_EL (PyInt 0) None False)
              \<lparr>thread_management :=
                 Some \<lparr>cur_thread =
                   Some \<lparr>td_stopped = True,
                         td_stop_event = Some THREAD_EVENT_UNEXECPT_EVENT\<rparr>\<rparr>,
               uc := True,
               internal_exception := Some KeyboardInterrupt\<rparr>)"
proof -
  let ?td = "\<lparr>td_stopped = False, td_stop_event = None\<rparr>"
  let ?tm = "\<lparr>cur_thread = Some ?td\<rparr>"
  let ?q = "(ql_init 32 QL_ENDIAN_EL (PyInt 0) None False)\<lparr>thread_management := Some ?tm\<rparr>"
  have h1: "bridged Hook_code" by simp
  have h2: "callback_fields Hook_code (CodeArgs 4096 4) = Some [4096, 4]" by simp
  have h3: "raising_callback KeyboardInterrupt [4096, 4] (if truthy PyNone then Some PyNone else None) ?q
       = Raised KeyboardInterrupt ?q" by (simp add: raising_callback_def)
  have h4: "thread_management ?q = None
         \<or> (\<exists>tm td. thread_management ?q = Some tm \<and> cur_thread tm = Some td)"
    by (simp add: ql_init_def)
  from bridged_exception_caught[of Hook_code "CodeArgs 4096 4" "[4096, 4]"
      "raising_callback KeyboardInterrupt" PyNone ?q KeyboardInterrupt ?q flag_emu_stop 1 0,
      OF h1 h2 h3 h4]
  obtain qs where s: "stop flag_emu_stop ?q THREAD_EVENT_UNEXECPT_EVENT = Returned qs"
    and r: "hook_fn (register flag_emu_stop Hook_code (raising_callback KeyboardInterrupt) PyNone 1 0)
              (CodeArgs 4096 4) ?q = Returned (qs\<lparr>internal_exception := Some KeyboardInterrupt\<rparr>)"
    by blast
  from s have "qs = (ql_init 32 QL_ENDIAN_EL (PyInt 0) None False)
         \<lparr>thread_management :=
            Some \<lparr>cur_thread =
              Some \<lparr>td_stopped = True, td_stop_event = Some THREAD_EVENT_UNEXECPT_EVENT\<rparr>\<rparr>,
          uc := True\<rparr>"
    by (simp add: stop_def td_stop_def flag_emu_stop_def ql_init_def)
  with r h1 h2 h3 show ?thesis by simp
qed

lemma falsy_callbacks:
  assumes "\<not> truthy user_data"
  shows "code_callback cb user_data = code_callback cb PyNone"
    and "intr_callback cb user_data = intr_callback cb PyNone"
    and "mem_callback cb user_data = mem_callback cb PyNone"
    and "address_callback cb user_data = address_callback cb PyNone"
    and "x86_syscall_callback cb user_data = x86_syscall_callback cb PyNone"
  using assms
  by (auto simp: fun_eq_iff code_callback_def intr_callback_def mem_callback_def
      address_callback_def x86_syscall_callback_def split: uc_args.splits list.splits)

text \<open>
  Claim C10. For every bridged kind (all of \<^verbatim>\<open>hook_code\<close>, \<^verbatim>\<open>hook_block\<close>, \<^verbatim>\<open>hook_intr\<close>,
  \<^verbatim>\<open>hook_address\<close> and the \<^verbatim>\<open>hook_mem_*\<close> methods are), registering with a falsy
  \<^verbatim>\<open>user_data\<close> hands the engine the same registration as registering with \<^verbatim>\<open>None\<close>.
  On an event the user callback is called with the event fields and without
  \<^verbatim>\<open>user_data\<close>: when that call returns, the engine gets back the state it left; when it
  raises, the wrapper calls \<^verbatim>\<open>stop\<close> with the UNEXPECTED event and, if that returns,
  records the exception and returns.
\<close>

theorem falsy_user_data_as_none:
  assumes "\<not> truthy user_data" and "bridged kind"
  shows "register emu_stop kind callback user_data b en = register emu_stop kind callback PyNone b en
         \<and> (callback_fields kind args = Some fs \<longrightarrow>
              hook_fn (register emu_stop kind callback user_data b en) args q
                = catch_KeyboardInterrupt emu_stop (callback fs None) q)
         \<and> (callback_fields kind args = Some fs \<and> callback fs None q = Returned q' \<longrightarrow>
              hook_fn (register emu_stop kind callback user_data b en) args q = Returned q')
         \<and> (callback_fields kind args = Some fs \<and> callback fs None q = Raised err q' \<longrightarrow>
              hook_fn (register emu_stop kind callback user_data b en) args q
                = (case stop emu_stop q' THREAD_EVENT_UNEXECPT_EVENT of
                     Returned qs \<Rightarrow> Returned (qs\<lparr>internal_exception := Some err\<rparr>)
                   | Raised err' qs \<Rightarrow> Raised err' qs))"
proof (intro conjI impI)
  show "register emu_stop kind callback user_data b en = register emu_stop kind callback PyNone b en"
    using assms(2)
    by (cases kind)
       (simp_all add: falsy_callbacks[OF assms(1)] hook_code_def hook_intr_def hook_block_def
          hook_mem_unmapped_def hook_mem_read_invalid_def hook_mem_write_invalid_def
          hook_mem_fetch_invalid_def hook_mem_invalid_def hook_address_def hook_mem_read_def
          hook_mem_write_def hook_mem_fetch_def hook_insn_def)
next
  assume "callback_fields kind args = Some fs"
  from bridged_hook_fn[OF assms(2) this, of emu_stop callback user_data b en q] assms(1)
  show "hook_fn (register emu_stop kind callback user_data b en) args q
          = catch_KeyboardInterrupt emu_stop (callback fs None) q"
    by simp
next
  assume a: "callback_fields kind args = Some fs \<and> callback fs None q = Returned q'"
  then have f: "callback_fields kind args = Some fs" by blast
  from bridged_hook_fn[OF assms(2) f, of emu_stop callback user_data b en q] assms(1) a
  show "hook_fn (register emu_stop kind callback user_data b en) args q = Returned q'"
    by (simp add: catch_KeyboardInterrupt_def)
next
  assume a: "callback_fields kind args = Some fs \<and> callback fs None q = Raised err q'"
  then have f: "callback_fields kind args = Some fs" by blast
  from bridged_hook_fn[OF assms(2) f, of emu_stop callback user_data b en q] assms(1) a
  show "hook_fn (register emu_stop kind callback user_data b en) args q
                = (case stop emu_stop q' THREAD_EVENT_UNEXECPT_EVENT of
                     Returned qs \<Rightarrow> Returned (qs\<lparr>internal_exception := Some err\<rparr>)
                   | Raised err' qs \<Rightarrow> Raised err' qs)"
    by (simp add: catch_KeyboardInterrupt_def split: outcome.splits)
qed

text \<open>
  The hypotheses of C10 at a memory-read hook registered with \<^verbatim>\<open>0\<close>, \<^verbatim>\<open>''\<close> and \<^verbatim>\<open>{}\<close>:
  the callback notes one call, with address, size and value and no \<^verbatim>\<open>user_data\<close>.
\<close>

theorem falsy_user_data_as_none_witness:
  "\<not> truthy (PyInt 0) \<and> \<not> truthy (PyStr []) \<and> \<not> truthy (PyDict []) \<and> bridged Hook_mem_read
   \<and> callback_fields Hook_mem_read (MemArgs 16 4096 4 7) = Some [4096, 4, 7]
   \<and> noting_callback [4096, 4, 7] None (ql_init 32 QL_ENDIAN_EL (PyInt 0) None [])
       = Returned ((ql_init 32 QL_ENDIAN_EL (PyInt 0) None [])\<lparr>uc := [([4096, 4, 7], None)]\<rparr>)
   \<and> register id Hook_mem_read noting_callback (PyInt 0) 1 0
       = register id Hook_mem_read noting_callback PyNone 1 0
   \<and> hook_fn (register id Hook_mem_read noting_callback (PyInt 0) 1 0)
        (MemArgs 16 4096 4 7) (ql_init 32 QL_ENDIAN_EL (PyInt 0) None [])
       = Returned ((ql_init 32 QL_ENDIAN_EL (PyInt 0) None [])\<lparr>uc := [([4096, 4, 7], None)]\<rparr>)
   \<and> hook_fn (register id Hook_mem_read noting_callback (PyStr []) 1 0)
        (MemArgs 16 4096 4 7) (ql_init 32 QL_ENDIAN_EL (PyInt 0) None [])
       = Returned ((ql_init 32 QL_ENDIAN_EL (PyInt 0) None [])\<lparr>uc := [([4096, 4, 7], None)]\<rparr>)
   \<and> hook_fn (register id Hook_mem_read noting_callback (PyDict []) 1 0)
        (MemArgs 16 4096 4 7) (ql_init 32 QL_ENDIAN_EL (PyInt 0) None [])
       = Returned ((ql_init 32 QL_ENDIAN_EL (PyInt 0) None [])\<lparr>uc := [([4096, 4, 7], None)]\<rparr>)"
proof -
  let ?q = "ql_init 32 QL_ENDIAN_EL (PyInt 0) None ([] :: (int list \<times> py_value option) list)"
  let ?q' = "?q\<lparr>uc := [([4096, 4, 7], None)]\<rparr>"
  have h1: "\<not> truthy (PyInt 0)" by simp
  have h1s: "\<not> truthy (PyStr [])" by simp
  have h1d: "\<not> truthy (PyDict [])" by simp
  have h2: "bridged Hook_mem_read" by simp
  have h3: "callback_fields Hook_mem_read (MemArgs 16 4096 4 7) = Some [4096, 4, 7]" by simp
  have h4: "noting_callback [4096, 4, 7] None ?q = Returned ?q'"
    by (simp add: noting_callback_def ql_init_def)
  note t0 = falsy_user_data_as_none[OF h1 h2, of id noting_callback 1 0 "MemArgs 16 4096 4 7"
      "[4096, 4, 7]" ?q ?q']
  note ts = falsy_user_data_as_none[OF h1s h2, of id noting_callback 1 0 "MemArgs 16 4096 4 7"
      "[4096, 4, 7]" ?q ?q']
  note td = falsy_user_data_as_none[OF h1d h2, of id noting_callback 1 0 "MemArgs 16 4096 4 7"
      "[4096, 4, 7]" ?q ?q']
  from t0 have a: "register id Hook_mem_read noting_callback (PyInt 0) 1 0
       = register id Hook_mem_read noting_callback PyNone 1 0" by blast
  from t0 h3 h4 have b: "hook_fn (register id Hook_mem_read noting_callback (PyInt 0) 1 0)
        (MemArgs 16 4096 4 7) ?q = Returned ?q'" by blast
  from ts h3 h4 have c: "hook_fn (register id Hook_mem_read noting_callback (PyStr []) 1 0)
        (MemArgs 16 4096 4 7) ?q = Returned ?q'" by blast
  from td h3 h4 have d: "hook_fn (register id Hook_mem_read noting_callback (PyDict []) 1 0)
        (MemArgs 16 4096 4 7) ?q = Returned ?q'" by blast
  from h1 h1s h1d h2 h3 h4 a b c d show ?thesis by blast
qed

end
